theory Spec2Isabelle
  imports Main
begin

section \<open>Text: characters, line splitting, joining\<close>

text \<open>
  The program works on Python \<^verbatim>\<open>str\<close> values. A string is modelled as a \<^typ>\<open>string\<close>
  whose characters are the code points below 256; the character classes below are
  Python's on that range.
\<close>

definition LF :: char where "LF = CHR 0x0A"
definition CR :: char where "CR = CHR 0x0D"
definition BS :: char where "BS = CHR 0x08"

text \<open>\<^verbatim>\<open>\w\<close> of a Python 3 \<^verbatim>\<open>str\<close> pattern: alphanumeric code points and the underscore.\<close>

definition is_word :: "char \<Rightarrow> bool" where
  "is_word c = (let n = (of_char c :: nat) in
     (48 \<le> n \<and> n \<le> 57) \<or> (65 \<le> n \<and> n \<le> 90) \<or> n = 95 \<or> (97 \<le> n \<and> n \<le> 122) \<or>
     n = 170 \<or> n = 178 \<or> n = 179 \<or> n = 181 \<or> n = 185 \<or> n = 186 \<or>
     n = 188 \<or> n = 189 \<or> n = 190 \<or>
     (192 \<le> n \<and> n \<le> 214) \<or> (216 \<le> n \<and> n \<le> 246) \<or> 248 \<le> n)"

text \<open>The line boundaries of \<^verbatim>\<open>str.splitlines\<close> below code point 256.\<close>

definition is_linebreak :: "char \<Rightarrow> bool" where
  "is_linebreak c = (let n = (of_char c :: nat) in
     n = 10 \<or> n = 11 \<or> n = 12 \<or> n = 13 \<or> n = 28 \<or> n = 29 \<or> n = 30 \<or> n = 133)"

text \<open>
  \<^verbatim>\<open>str.splitlines()\<close>: the text is cut at every line boundary, \<^verbatim>\<open>\r\n\<close> counting as
  one; a last line is produced only when text follows the last boundary. The first
  argument is the current line in reverse, the second tells that the previous character
  was a carriage return.
\<close>

fun splitlines_from :: "string \<Rightarrow> bool \<Rightarrow> string \<Rightarrow> string list" where
  "splitlines_from cur cr [] = (if cur = [] then [] else [rev cur])"
| "splitlines_from cur cr (c # cs) =
     (if cr \<and> c = LF then splitlines_from cur False cs
      else if is_linebreak c then rev cur # splitlines_from [] (c = CR) cs
      else splitlines_from (c # cur) False cs)"

definition splitlines :: "string \<Rightarrow> string list" where
  "splitlines buf = splitlines_from [] False buf"

text \<open>\<^verbatim>\<open>sep.join(components)\<close>.\<close>

fun join :: "string \<Rightarrow> string list \<Rightarrow> string" where
  "join sep [] = []"
| "join sep [x] = x"
| "join sep (x # y # ys) = x @ sep @ join sep (y # ys)"

section \<open>The regular expressions of the program\<close>

text \<open>
  Every pattern of the program is a sequence of single-character classes, each taken
  once or under one of the quantifiers \<^verbatim>\<open>*\<close>, \<^verbatim>\<open>+\<close>, \<^verbatim>\<open>*?\<close>, \<^verbatim>\<open>+?\<close>, and of the
  anchor \<^verbatim>\<open>^\<close> (in \<^verbatim>\<open>MULTILINE\<close> mode). Such a pattern is a list of atoms.
\<close>

datatype quant = Once | Star | Plus | LazyStar | LazyPlus

datatype atom = Cls "char \<Rightarrow> bool" quant | Bol

definition lit :: "char \<Rightarrow> atom" where
  "lit c = Cls (\<lambda>x. x = c) Once"

definition lits :: "string \<Rightarrow> atom list" where
  "lits s = map lit s"

text \<open>The dot: any character but a newline; with \<^verbatim>\<open>DOTALL\<close>, any character.\<close>

definition dot :: "char \<Rightarrow> bool" where
  "dot c = (c \<noteq> LF)"

definition dotall :: "char \<Rightarrow> bool" where
  "dotall c = True"

definition is_space :: "char \<Rightarrow> bool" where
  "is_space c = (c = CHR '' '')"

definition push_seg :: "string \<Rightarrow> string list option \<Rightarrow> string list option" where
  "push_seg seg r = map_option ((#) seg) r"

fun grow :: "char \<Rightarrow> string list option \<Rightarrow> string list option" where
  "grow c (Some (seg # segs)) = Some ((c # seg) # segs)"
| "grow c _ = None"

text \<open>
  \<open>rmatch atoms prev s\<close> matches the pattern at the start of \<open>s\<close>, \<open>prev\<close> being the
  character before it (\<open>None\<close> at the start of the text). It is the backtracking search
  of Python's \<^verbatim>\<open>re\<close>: a greedy quantifier tries the longest run first and gives
  characters back one at a time, a lazy one tries the shortest first; the first
  alternative that lets the rest of the pattern match is the match. The result is the
  text consumed by each atom, in order, so a group is read off as the segments of the
  atoms it spans.
\<close>

fun rmatch :: "atom list \<Rightarrow> char option \<Rightarrow> string \<Rightarrow> string list option" where
  "rmatch [] prev s = Some []"
| "rmatch (Bol # as) prev s =
     (if prev = None \<or> prev = Some LF then push_seg [] (rmatch as prev s) else None)"
| "rmatch (Cls p Once # as) prev [] = None"
| "rmatch (Cls p Once # as) prev (c # cs) =
     (if p c then push_seg [c] (rmatch as (Some c) cs) else None)"
| "rmatch (Cls p Star # as) prev [] = push_seg [] (rmatch as prev [])"
| "rmatch (Cls p Star # as) prev (c # cs) =
     (if p c then
        (case grow c (rmatch (Cls p Star # as) (Some c) cs) of
           Some r \<Rightarrow> Some r
         | None \<Rightarrow> push_seg [] (rmatch as prev (c # cs)))
      else push_seg [] (rmatch as prev (c # cs)))"
| "rmatch (Cls p Plus # as) prev [] = None"
| "rmatch (Cls p Plus # as) prev (c # cs) =
     (if p c then grow c (rmatch (Cls p Star # as) (Some c) cs) else None)"
| "rmatch (Cls p LazyStar # as) prev [] = push_seg [] (rmatch as prev [])"
| "rmatch (Cls p LazyStar # as) prev (c # cs) =
     (case push_seg [] (rmatch as prev (c # cs)) of
        Some r \<Rightarrow> Some r
      | None \<Rightarrow>
          (if p c then grow c (rmatch (Cls p LazyStar # as) (Some c) cs) else None))"
| "rmatch (Cls p LazyPlus # as) prev [] = None"
| "rmatch (Cls p LazyPlus # as) prev (c # cs) =
     (if p c then grow c (rmatch (Cls p LazyStar # as) (Some c) cs) else None)"

text \<open>\<^verbatim>\<open>re.search\<close>: the match at the leftmost position that has one.\<close>

fun rsearch :: "atom list \<Rightarrow> char option \<Rightarrow> string \<Rightarrow> string list option" where
  "rsearch atoms prev [] = rmatch atoms prev []"
| "rsearch atoms prev (c # cs) =
     (case rmatch atoms prev (c # cs) of
        Some segs \<Rightarrow> Some segs
      | None \<Rightarrow> rsearch atoms (Some c) cs)"

text \<open>
  \<^verbatim>\<open>re.sub(pattern, repl, string)\<close>: the text is scanned from the left, every match is
  replaced by \<open>repl\<close> of its segments and the scan goes on after the match. The fourth
  argument counts the characters of the current match still to be skipped. No pattern
  the program substitutes can match the empty string, so the equation for an empty
  match (which copies the next character) is never used by the program.
\<close>

fun rsub :: "atom list \<Rightarrow> (string list \<Rightarrow> string) \<Rightarrow> char option \<Rightarrow> nat \<Rightarrow> string \<Rightarrow> string" where
  "rsub atoms repl prev (Suc k) [] = []"
| "rsub atoms repl prev (Suc k) (c # cs) = rsub atoms repl (Some c) k cs"
| "rsub atoms repl prev 0 [] =
     (case rmatch atoms prev [] of Some segs \<Rightarrow> repl segs | None \<Rightarrow> [])"
| "rsub atoms repl prev 0 (c # cs) =
     (case rmatch atoms prev (c # cs) of
        Some segs \<Rightarrow>
          (case length (concat segs) of
             0 \<Rightarrow> repl segs @ c # rsub atoms repl (Some c) 0 cs
           | Suc k \<Rightarrow> repl segs @ rsub atoms repl (Some c) k cs)
      | None \<Rightarrow> c # rsub atoms repl (Some c) 0 cs)"

definition re_sub :: "atom list \<Rightarrow> (string list \<Rightarrow> string) \<Rightarrow> string \<Rightarrow> string" where
  "re_sub atoms repl s = rsub atoms repl None 0 s"

text \<open>
  What a successful match guarantees: \<open>seg_ok atom seg\<close> says that the segment
  \<open>seg\<close> is a text the atom can consume.
\<close>

fun seg_ok :: "atom \<Rightarrow> string \<Rightarrow> bool" where
  "seg_ok (Cls p Once) seg = (\<exists>c. seg = [c] \<and> p c)"
| "seg_ok (Cls p Star) seg = list_all p seg"
| "seg_ok (Cls p Plus) seg = (seg \<noteq> [] \<and> list_all p seg)"
| "seg_ok (Cls p LazyStar) seg = list_all p seg"
| "seg_ok (Cls p LazyPlus) seg = (seg \<noteq> [] \<and> list_all p seg)"
| "seg_ok Bol seg = (seg = [])"

section \<open>The introspection backend\<close>

text \<open>
  \<^verbatim>\<open>pydoc.locate(name)\<close> returns an object, returns \<^verbatim>\<open>None\<close>, or raises
  \<^verbatim>\<open>pydoc.ErrorDuringImport\<close>; \<^verbatim>\<open>pydoc.render_doc(name)\<close> returns a text. Both are
  parameters of the model: \<open>loc\<close> of type \<open>string \<Rightarrow> located\<close> and \<open>render\<close> of type
  \<open>string \<Rightarrow> string\<close>.
\<close>

datatype located = Located | NotLocated | ErrorDuringImport

section \<open>The parser object\<close>

text \<open>
  The attributes of an \<^verbatim>\<open>RSTParser\<close>. \<^verbatim>\<open>module\<close> and \<^verbatim>\<open>cls\<close> exist only once
  \<^verbatim>\<open>reset_context\<close> has run, which both passes do first; \<^verbatim>\<open>indices\<close> is a dictionary,
  of which only the mapping matters here.
\<close>

record rstparser =
  lines :: "string list"
  indices :: "string \<rightharpoonup> nat"
  module :: "string option"
  cls :: "string option"

datatype error = TypeError

definition DIRECTIVES_TO_INCLUDE :: "string list" where
  "DIRECTIVES_TO_INCLUDE =
     [''autosummary_'', ''module'', ''currentmodule'', ''automodule'', ''class'',
      ''autoclass'', ''method'', ''classmethod'', ''coroutinemethod'', ''automethod'',
      ''staticmethod'', ''function'', ''autofunction'', ''c:function'', ''data'',
      ''attribute'', ''exception'', ''c:var'', ''c:type'', ''decorator'', ''envvar'',
      ''autodata'']"

definition init :: rstparser where
  "init = \<lparr>lines = [], indices = Map.empty, module = None, cls = None\<rparr>"

subsection \<open>read\<close>

text \<open>
  \<^verbatim>\<open>r'\n.. autosummary::.*?\n\n(.+?)\n\n'\<close> with \<^verbatim>\<open>DOTALL\<close>: the two dots are not
  escaped, so each stands for any character. Atom 0 is the newline, 1 and 2 the dots,
  3 to 16 the text \<^verbatim>\<open> autosummary::\<close>, 17 the lazy \<^verbatim>\<open>.*?\<close>, 18 and 19 two newlines,
  20 the group, 21 and 22 two newlines.
\<close>

definition autosummary_re :: "atom list" where
  "autosummary_re =
     [lit LF, Cls dotall Once, Cls dotall Once] @ lits '' autosummary::'' @
     [Cls dotall LazyStar, lit LF, lit LF, Cls dotall LazyPlus, lit LF, lit LF]"

text \<open>\<^verbatim>\<open>r'^ +'\<close> with \<^verbatim>\<open>MULTILINE\<close>.\<close>

definition indent_re :: "atom list" where
  "indent_re = [Bol, Cls is_space Plus]"

definition repl_autoloaded :: "string list \<Rightarrow> string" where
  "repl_autoloaded segs =
     (let buf = segs ! 20;
          buf = re_sub indent_re (\<lambda>_. ''.. autosummary_:: '') buf
      in [LF] @ buf @ [LF, LF])"

text \<open>\<open>read buf s\<close>: \<open>buf\<close> is what \<^verbatim>\<open>stream.read()\<close> returned.\<close>

definition read :: "string \<Rightarrow> rstparser \<Rightarrow> rstparser" where
  "read buf s =
     (let buf = re_sub autosummary_re repl_autoloaded buf
      in s\<lparr>lines := splitlines buf\<rparr>)"

subsection \<open>parse_directive\<close>

text \<open>
  \<^verbatim>\<open>re.search(r'\.\. *([^:]+):: *(.*)', astr)\<close>: atoms 0 and 1 are the dots, 2 the
  spaces, 3 the first group, 4 and 5 the colons, 6 the spaces, 7 the second group.
\<close>

definition directive_re :: "atom list" where
  "directive_re =
     [lit CHR ''.'', lit CHR ''.'', Cls is_space Star, Cls (\<lambda>c. c \<noteq> CHR '':'') Plus,
      lit CHR '':'', lit CHR '':'', Cls is_space Star, Cls dot Star]"

definition parse_directive :: "string \<Rightarrow> string option \<times> string option" where
  "parse_directive astr =
     (case rsearch directive_re None astr of
        Some segs \<Rightarrow> (Some (segs ! 3), Some (segs ! 7))
      | None \<Rightarrow> (None, None))"

subsection \<open>compose_name, is_valid_name, resolve_name\<close>

definition compose_name :: "string option list \<Rightarrow> string" where
  "compose_name kargs =
     (let components = map the (filter (\<lambda>n. n \<noteq> None) kargs)
      in join ''.'' components)"

definition is_valid_name :: "(string \<Rightarrow> located) \<Rightarrow> string \<Rightarrow> bool" where
  "is_valid_name loc name =
     (case loc name of
        ErrorDuringImport \<Rightarrow> False
      | Located \<Rightarrow> True
      | NotLocated \<Rightarrow> False)"

text \<open>
  The names composed by the two nested loops of \<^verbatim>\<open>resolve_name\<close>, in the order the
  loops compose them.
\<close>

definition candidates :: "string option \<Rightarrow> string option \<Rightarrow> string \<Rightarrow> string list" where
  "candidates module_arg cls_arg name =
     concat (map (\<lambda>m. map (\<lambda>c. compose_name [m, c, Some name]) [cls_arg, None])
       [module_arg, None])"

text \<open>
  The loops stop at the first valid name. \<open>first_valid\<close> returns the names that were
  handed to \<^verbatim>\<open>is_valid_name\<close> up to that point, and the name returned.
\<close>

fun first_valid :: "(string \<Rightarrow> bool) \<Rightarrow> string list \<Rightarrow> string list \<times> string option" where
  "first_valid valid [] = ([], None)"
| "first_valid valid (n # ns) =
     (if valid n then ([n], Some n)
      else (case first_valid valid ns of (probed, r) \<Rightarrow> (n # probed, r)))"

definition resolve_run ::
  "(string \<Rightarrow> located) \<Rightarrow> rstparser \<Rightarrow> string \<Rightarrow> string option \<Rightarrow> string option \<Rightarrow>
     string list \<times> string option" where
  "resolve_run loc s name module_arg cls_arg =
     (let module_arg = (if module_arg = None then module s else module_arg);
          cls_arg = (if cls_arg = None then cls s else cls_arg)
      in first_valid (is_valid_name loc) (candidates module_arg cls_arg name))"

definition resolve_name ::
  "(string \<Rightarrow> located) \<Rightarrow> rstparser \<Rightarrow> string \<Rightarrow> string option \<Rightarrow> string option \<Rightarrow>
     string option" where
  "resolve_name loc s name module_arg cls_arg = snd (resolve_run loc s name module_arg cls_arg)"

definition resolve_probes ::
  "(string \<Rightarrow> located) \<Rightarrow> rstparser \<Rightarrow> string \<Rightarrow> string option \<Rightarrow> string option \<Rightarrow>
     string list" where
  "resolve_probes loc s name module_arg cls_arg = fst (resolve_run loc s name module_arg cls_arg)"

subsection \<open>pydoc_lines_for\<close>

definition pydoc_lines_for ::
  "(string \<Rightarrow> located) \<Rightarrow> (string \<Rightarrow> string) \<Rightarrow> rstparser \<Rightarrow> string \<Rightarrow> string list" where
  "pydoc_lines_for loc render s name =
     (case resolve_name loc s name None None of
        None \<Rightarrow> []
      | Some name \<Rightarrow> drop 2 (splitlines (render name)))"

subsection \<open>reset_context, track_context\<close>

definition reset_context :: "rstparser \<Rightarrow> rstparser" where
  "reset_context s = s\<lparr>module := None, cls := None\<rparr>"

text \<open>\<^verbatim>\<open>r' *\(.+'\<close>.\<close>

definition args_re :: "atom list" where
  "args_re = [Cls is_space Star, lit CHR ''('', Cls dot Plus]"

text \<open>\<^verbatim>\<open>r' = class (\w+)'\<close>: atoms 0 to 8 are the text, 9 is the group.\<close>

definition pydoc_class_re :: "atom list" where
  "pydoc_class_re = lits '' = class '' @ [Cls is_word Plus]"

text \<open>\<^verbatim>\<open>r'.\x08'\<close>.\<close>

definition overstrike_re :: "atom list" where
  "overstrike_re = [Cls dot Once, lit BS]"

text \<open>\<^verbatim>\<open>r' *class (\w+)'\<close>: atom 0 is the spaces, 1 to 6 the text, 7 the group.\<close>

definition class_re :: "atom list" where
  "class_re = [Cls is_space Star] @ lits ''class '' @ [Cls is_word Plus]"

definition track_context :: "string \<Rightarrow> rstparser \<Rightarrow> rstparser" where
  "track_context line s =
     (let (key, val) = parse_directive line;
          s = (if key \<in> Some ` set [''module'', ''currentmodule'', ''automodule'']
               then s\<lparr>module := val\<rparr> else s);
          s = (if key \<in> Some ` set [''class'', ''autoclass'']
               then s\<lparr>cls := Some (re_sub args_re (\<lambda>_. []) (the val))\<rparr> else s);
          s = (case rsearch pydoc_class_re None line of
                 Some segs \<Rightarrow> s\<lparr>cls := Some (segs ! 9)\<rparr>
               | None \<Rightarrow> s);
          line = re_sub overstrike_re (\<lambda>_. []) line
      in case rmatch class_re None line of
           Some segs \<Rightarrow> s\<lparr>cls := Some (segs ! 7)\<rparr>
         | None \<Rightarrow> s)"

subsection \<open>expand_auto_directives\<close>

text \<open>
  The loop over \<^verbatim>\<open>self.lines\<close>; \<open>acc\<close> is the local list \<^verbatim>\<open>lines\<close>. The test
  \<^verbatim>\<open>key and key.startswith('auto') and val\<close> holds for strings that are not empty.
\<close>

fun expand_loop ::
  "(string \<Rightarrow> located) \<Rightarrow> (string \<Rightarrow> string) \<Rightarrow> string list \<Rightarrow> string list \<Rightarrow> rstparser \<Rightarrow>
     string list \<times> rstparser" where
  "expand_loop loc render [] acc s = (acc, s)"
| "expand_loop loc render (line # rest) acc s =
     (let acc = acc @ [line];
          s = track_context line s;
          acc = (case parse_directive line of
                   (Some key, Some val) \<Rightarrow>
                     (if key \<noteq> [] \<and> take 4 key = ''auto'' \<and> val \<noteq> []
                      then acc @ pydoc_lines_for loc render s val else acc)
                 | _ \<Rightarrow> acc)
      in expand_loop loc render rest acc s)"

definition expand_auto_directives ::
  "(string \<Rightarrow> located) \<Rightarrow> (string \<Rightarrow> string) \<Rightarrow> rstparser \<Rightarrow> rstparser" where
  "expand_auto_directives loc render s =
     (let s = reset_context s
      in case expand_loop loc render (lines s) [] s of
           (acc, s) \<Rightarrow> s\<lparr>lines := acc\<rparr>)"

subsection \<open>register_index, parse_indices, parse\<close>

text \<open>\<^verbatim>\<open>r'\(.+'\<close>.\<close>

definition paren_re :: "atom list" where
  "paren_re = [lit CHR ''('', Cls dot Plus]"

text \<open>The test \<^verbatim>\<open>if name:\<close> holds for a resolved name that is not the empty string.\<close>

definition register_index ::
  "(string \<Rightarrow> located) \<Rightarrow> string \<Rightarrow> nat \<Rightarrow> string option \<Rightarrow> string option \<Rightarrow> rstparser \<Rightarrow>
     rstparser" where
  "register_index loc name lineno module_arg cls_arg s =
     (let name = re_sub paren_re (\<lambda>_. []) name
      in case resolve_name loc s name module_arg cls_arg of
           Some name \<Rightarrow> (if name \<noteq> [] then s\<lparr>indices := (indices s)(name \<mapsto> lineno)\<rparr> else s)
         | None \<Rightarrow> s)"

text \<open>
  \<^verbatim>\<open>r'\|  (\w\x08[\w\x08]+)'\<close>: atoms 0 to 2 are the bar and the two spaces, the group
  spans atoms 3 to 5.
\<close>

definition method_re :: "atom list" where
  "method_re =
     [lit CHR ''|'', lit CHR '' '', lit CHR '' '', Cls is_word Once, lit BS,
      Cls (\<lambda>c. is_word c \<or> c = BS) Plus]"

text \<open>The first \<^verbatim>\<open>if\<close> of the loop body of \<^verbatim>\<open>parse_indices\<close>.\<close>

definition index_directive :: "(string \<Rightarrow> located) \<Rightarrow> nat \<Rightarrow> string \<Rightarrow> rstparser \<Rightarrow> rstparser" where
  "index_directive loc lineno line s =
     (case parse_directive line of
        (Some key, Some val) \<Rightarrow>
          (if key \<in> set DIRECTIVES_TO_INCLUDE \<and> val \<noteq> []
           then register_index loc val lineno None None s else s)
      | _ \<Rightarrow> s)"

text \<open>
  The second \<^verbatim>\<open>if\<close>: \<^verbatim>\<open>self.cls + '.' + name\<close> raises \<^verbatim>\<open>TypeError\<close> when
  \<^verbatim>\<open>self.cls\<close> is \<^verbatim>\<open>None\<close>.
\<close>

definition index_method ::
  "(string \<Rightarrow> located) \<Rightarrow> nat \<Rightarrow> string \<Rightarrow> rstparser \<Rightarrow> error + rstparser" where
  "index_method loc lineno line s =
     (case rsearch method_re None line of
        Some segs \<Rightarrow>
          (let name = re_sub overstrike_re (\<lambda>_. []) (segs ! 3 @ segs ! 4 @ segs ! 5)
           in case cls s of
                None \<Rightarrow> Inl TypeError
              | Some c \<Rightarrow> Inr (register_index loc (c @ ''.'' @ name) lineno None None s))
      | None \<Rightarrow> Inr s)"

fun parse_indices_loop ::
  "(string \<Rightarrow> located) \<Rightarrow> nat \<Rightarrow> string list \<Rightarrow> rstparser \<Rightarrow> error + rstparser" where
  "parse_indices_loop loc lineno [] s = Inr s"
| "parse_indices_loop loc lineno (line # rest) s =
     (case index_method loc lineno line (index_directive loc lineno line s) of
        Inl e \<Rightarrow> Inl e
      | Inr s \<Rightarrow> parse_indices_loop loc (Suc lineno) rest (track_context line s))"

definition parse_indices :: "(string \<Rightarrow> located) \<Rightarrow> rstparser \<Rightarrow> error + rstparser" where
  "parse_indices loc s =
     (let s = reset_context s in parse_indices_loop loc 0 (lines s) s)"

definition parse ::
  "(string \<Rightarrow> located) \<Rightarrow> (string \<Rightarrow> string) \<Rightarrow> rstparser \<Rightarrow> error + rstparser" where
  "parse loc render s = parse_indices loc (expand_auto_directives loc render s)"

section \<open>Backends for the examples\<close>

text \<open>A backend that locates exactly the name \<open>v\<close>, and one that renders the same text for every name.\<close>

definition loc_only :: "string \<Rightarrow> string \<Rightarrow> located" where
  "loc_only v name = (if name = v then Located else NotLocated)"

definition render_text :: "string \<Rightarrow> string \<Rightarrow> string" where
  "render_text doc name = doc"

section \<open>Evaluation\<close>

text \<open>The defining equations that evaluate the patterns and the passes on a given text.\<close>

lemmas re_defs = directive_re_def args_re_def pydoc_class_re_def overstrike_re_def class_re_def
  paren_re_def method_re_def autosummary_re_def indent_re_def
  lit_def lits_def dot_def dotall_def is_space_def push_seg_def LF_def CR_def BS_def is_word_def
  is_linebreak_def re_sub_def

lemmas pass_defs = parse_directive_def track_context_def index_directive_def index_method_def
  register_index_def resolve_name_def resolve_run_def candidates_def compose_name_def
  is_valid_name_def DIRECTIVES_TO_INCLUDE_def parse_indices_def reset_context_def
  expand_auto_directives_def pydoc_lines_for_def parse_def init_def loc_only_def render_text_def
  splitlines_def read_def repl_autoloaded_def Let_def

section \<open>Properties of the matcher\<close>

lemma push_seg_Some:
  "push_seg seg r = Some segs \<longleftrightarrow> (\<exists>segs'. r = Some segs' \<and> segs = seg # segs')"
  by (cases r) (auto simp: push_seg_def)

lemma push_seg_None: "push_seg seg r = None \<longleftrightarrow> r = None"
  by (simp add: push_seg_def)

lemma grow_Some:
  "grow c r = Some segs \<longleftrightarrow> (\<exists>seg segs'. r = Some (seg # segs') \<and> segs = (c # seg) # segs')"
  by (cases "(c, r)" rule: grow.cases) auto

lemma rmatch_sound:
  "rmatch atoms prev s = Some segs \<Longrightarrow>
     list_all2 seg_ok atoms segs \<and> (\<exists>rest. s = concat segs @ rest)"
proof (induction atoms prev s arbitrary: segs rule: rmatch.induct)
  case (1 prev s)
  then show ?case by simp
next
  case (2 as prev s)
  then show ?case by (auto simp: push_seg_Some split: if_splits)
next
  case (3 p as prev)
  then show ?case by simp
next
  case (4 p as prev c cs)
  then show ?case by (auto simp: push_seg_Some split: if_splits)
next
  case (5 p as prev)
  then show ?case by (auto simp: push_seg_Some)
next
  case (6 p as prev c cs)
  show ?case
  proof (cases "p c \<and> grow c (rmatch (Cls p Star # as) (Some c) cs) \<noteq> None")
    case True
    with 6(4) obtain seg segs' where r: "rmatch (Cls p Star # as) (Some c) cs = Some (seg # segs')"
      and s: "segs = (c # seg) # segs'"
      by (auto simp: grow_Some)
    from 6(1)[OF _ r] True s show ?thesis by auto
  next
    case False
    with 6(4) have r: "push_seg [] (rmatch as prev (c # cs)) = Some segs"
      by (auto split: if_splits)
    then obtain segs' where r': "rmatch as prev (c # cs) = Some segs'" and s: "segs = [] # segs'"
      by (auto simp: push_seg_Some)
    show ?thesis
    proof (cases "p c")
      case True
      with False have "grow c (rmatch (Cls p Star # as) (Some c) cs) = None" by simp
      from 6(2)[OF True this r'] s show ?thesis by auto
    next
      case False
      from 6(3)[OF False r'] s show ?thesis by auto
    qed
  qed
next
  case (7 p as prev)
  then show ?case by simp
next
  case (8 p as prev c cs)
  then obtain seg segs' where pc: "p c" and r: "rmatch (Cls p Star # as) (Some c) cs = Some (seg # segs')"
      and s: "segs = (c # seg) # segs'"
    by (auto simp: grow_Some split: if_splits)
  from 8(1)[OF pc r] s pc show ?case by auto
next
  case (9 p as prev)
  then show ?case by (auto simp: push_seg_Some)
next
  case (10 p as prev c cs)
  show ?case
  proof (cases "push_seg [] (rmatch as prev (c # cs))")
    case None
    with 10(3) obtain seg segs' where pc: "p c"
      and r: "rmatch (Cls p LazyStar # as) (Some c) cs = Some (seg # segs')"
      and s: "segs = (c # seg) # segs'"
      by (auto simp: grow_Some split: if_splits)
    from 10(2)[OF None pc r] s pc show ?thesis by auto
  next
    case (Some a)
    with 10(3) have "a = segs" by simp
    with Some obtain segs' where r': "rmatch as prev (c # cs) = Some segs'" and s: "segs = [] # segs'"
      by (auto simp: push_seg_Some)
    from 10(1)[OF r'] s show ?thesis by auto
  qed
next
  case (11 p as prev)
  then show ?case by simp
next
  case (12 p as prev c cs)
  then obtain seg segs' where pc: "p c"
      and r: "rmatch (Cls p LazyStar # as) (Some c) cs = Some (seg # segs')"
      and s: "segs = (c # seg) # segs'"
    by (auto simp: grow_Some split: if_splits)
  from 12(1)[OF pc r] s pc show ?case by auto
qed

lemma rmatch_length: "rmatch atoms prev s = Some segs \<Longrightarrow> length segs = length atoms"
  by (drule rmatch_sound) (auto dest: list_all2_lengthD)

lemma rmatch_no_bol: "Bol \<notin> set atoms \<Longrightarrow> rmatch atoms prev s = rmatch atoms None s"
  by (induction atoms prev s rule: rmatch.induct) (simp_all split: option.splits)

lemma rsearch_sound:
  "rsearch atoms prev s = Some segs \<Longrightarrow>
     list_all2 seg_ok atoms segs \<and> (\<exists>pre rest. s = pre @ concat segs @ rest)"
proof (induction atoms prev s rule: rsearch.induct)
  case (1 atoms prev)
  then show ?case using rmatch_sound[of atoms prev "[]" segs] by auto
next
  case (2 atoms prev c cs)
  show ?case
  proof (cases "rmatch atoms prev (c # cs)")
    case None
    with 2 obtain pre rest where "list_all2 seg_ok atoms segs" "cs = pre @ concat segs @ rest"
      by auto
    then have "c # cs = (c # pre) @ concat segs @ rest" by simp
    with \<open>list_all2 seg_ok atoms segs\<close> show ?thesis by blast
  next
    case (Some a)
    with 2 have "rmatch atoms prev (c # cs) = Some segs" by simp
    from rmatch_sound[OF this] show ?thesis by (metis append_Nil)
  qed
qed

section \<open>Name resolution\<close>

lemma first_valid_eq:
  "first_valid valid ns =
     (takeWhile (\<lambda>n. \<not> valid n) ns @ take 1 (dropWhile (\<lambda>n. \<not> valid n) ns), find valid ns)"
  by (induction ns) (auto split: prod.splits)

lemma candidates_Some_Some:
  "candidates (Some p) (Some c) name =
     [p @ ''.'' @ c @ ''.'' @ name, p @ ''.'' @ name, c @ ''.'' @ name, name]"
  by (simp add: candidates_def compose_name_def)

text \<open>
  C1. With a current module \<open>p\<close> and a current class \<open>c\<close>, \<open>resolve_name\<close> hands to
  the backend the names \<open>p.c.name\<close>, \<open>p.name\<close>, \<open>c.name\<close>, \<open>name\<close> in that order,
  stopping at the first valid one, which it returns; it returns \<open>None\<close> when none is
  valid. An absent component is left out of the composed name.
\<close>

theorem resolve_name_probe_order:
  assumes "module s = Some p" and "cls s = Some c"
  shows "(let cands = [p @ ''.'' @ c @ ''.'' @ name, p @ ''.'' @ name, c @ ''.'' @ name, name] in
           resolve_probes loc s name None None =
             takeWhile (\<lambda>n. \<not> is_valid_name loc n) cands @
             take 1 (dropWhile (\<lambda>n. \<not> is_valid_name loc n) cands) \<and>
           resolve_name loc s name None None = find (is_valid_name loc) cands) \<and>
         compose_name [None, Some c, Some name] = c @ ''.'' @ name \<and>
         compose_name [Some p, None, Some name] = p @ ''.'' @ name \<and>
         compose_name [None, None, Some name] = name"
  using assms
  by (simp add: resolve_probes_def resolve_name_def resolve_run_def first_valid_eq
      candidates_Some_Some Let_def)
    (simp add: compose_name_def)

theorem resolve_name_probe_order_witness:
  "(let s = init\<lparr>module := Some ''pkg'', cls := Some ''Cls''\<rparr>;
        loc = (\<lambda>n. if n = ''pkg.m'' then Located else NotLocated)
    in module s = Some ''pkg'' \<and> cls s = Some ''Cls'' \<and>
       resolve_probes loc s ''m'' None None = [''pkg.Cls.m'', ''pkg.m''] \<and>
       resolve_name loc s ''m'' None None = Some ''pkg.m'')"
  using resolve_name_probe_order [of "init\<lparr>module := Some ''pkg'', cls := Some ''Cls''\<rparr>"
      "''pkg''" "''Cls''" "''m''" "\<lambda>n. if n = ''pkg.m'' then Located else NotLocated"]
  by (simp add: init_def is_valid_name_def)

section \<open>How the passes use the parser state\<close>

lemma track_context_lines [simp]: "lines (track_context line s) = lines s"
  by (simp add: track_context_def Let_def split: prod.splits option.splits)

lemma track_context_indices [simp]: "indices (track_context line s) = indices s"
  by (simp add: track_context_def Let_def split: prod.splits option.splits)

lemma track_context_indices_update:
  "track_context line (s\<lparr>indices := I\<rparr>) = (track_context line s)\<lparr>indices := I\<rparr>"
  by (simp add: track_context_def Let_def split: prod.splits option.splits)

lemma track_context_cong:
  "module s = module t \<Longrightarrow> cls s = cls t \<Longrightarrow>
     module (track_context line s) = module (track_context line t) \<and>
     cls (track_context line s) = cls (track_context line t)"
  by (simp add: track_context_def Let_def split: prod.splits option.splits)

lemma resolve_name_indices_update [simp]:
  "resolve_name loc (s\<lparr>indices := I\<rparr>) name m c = resolve_name loc s name m c"
  by (simp add: resolve_name_def resolve_run_def)

lemma register_index_fields [simp]:
  "lines (register_index loc name n m c s) = lines s"
  "module (register_index loc name n m c s) = module s"
  "cls (register_index loc name n m c s) = cls s"
  by (simp_all add: register_index_def Let_def split: option.splits)

lemma register_index_indices_update:
  "register_index loc name n m c (s\<lparr>indices := I\<rparr>) =
     (register_index loc name n m c s)
       \<lparr>indices := I ++ indices (register_index loc name n m c (s\<lparr>indices := Map.empty\<rparr>))\<rparr>"
  by (simp add: register_index_def Let_def split: option.splits)

lemma index_directive_fields [simp]:
  "lines (index_directive loc n line s) = lines s"
  "module (index_directive loc n line s) = module s"
  "cls (index_directive loc n line s) = cls s"
  by (simp_all add: index_directive_def split: prod.splits option.splits)

lemma index_directive_indices_update:
  "index_directive loc n line (s\<lparr>indices := I\<rparr>) =
     (index_directive loc n line s)
       \<lparr>indices := I ++ indices (index_directive loc n line (s\<lparr>indices := Map.empty\<rparr>))\<rparr>"
  by (simp add: index_directive_def register_index_def Let_def
      split: prod.splits option.splits)

lemma index_method_fields:
  "index_method loc n line s = Inr t \<Longrightarrow>
     lines t = lines s \<and> module t = module s \<and> cls t = cls s"
  by (auto simp: index_method_def Let_def split: option.splits)

lemma index_method_indices_update:
  "index_method loc n line (s\<lparr>indices := I\<rparr>) =
     (case index_method loc n line (s\<lparr>indices := Map.empty\<rparr>) of
        Inl e \<Rightarrow> Inl e
      | Inr t \<Rightarrow> Inr (t\<lparr>indices := I ++ indices t\<rparr>))"
  by (simp add: index_method_def register_index_def Let_def split: option.splits)

lemma parse_indices_loop_lines:
  "parse_indices_loop loc n ls s = Inr s' \<Longrightarrow> lines s' = lines s"
proof (induction ls arbitrary: n s)
  case Nil
  then show ?case by simp
next
  case (Cons line rest)
  then obtain t where t: "index_method loc n line (index_directive loc n line s) = Inr t"
    and r: "parse_indices_loop loc (Suc n) rest (track_context line t) = Inr s'"
    by (auto split: sum.splits)
  from Cons.IH[OF r] index_method_fields[OF t] show ?case by simp
qed

lemma parse_indices_loop_indices_update:
  "parse_indices_loop loc n ls (s\<lparr>indices := I\<rparr>) =
     (case parse_indices_loop loc n ls (s\<lparr>indices := Map.empty\<rparr>) of
        Inl e \<Rightarrow> Inl e
      | Inr t \<Rightarrow> Inr (t\<lparr>indices := I ++ indices t\<rparr>))"
proof (induction ls arbitrary: n s I)
  case Nil
  show ?case by simp
next
  case (Cons line rest)
  let ?d = "index_directive loc n line (s\<lparr>indices := Map.empty\<rparr>)"
  have d: "index_directive loc n line (s\<lparr>indices := I\<rparr>) = ?d\<lparr>indices := I ++ indices ?d\<rparr>"
    using index_directive_indices_update[where s=s and I=I]
      index_directive_indices_update[where s=s and I=Map.empty] by simp 
  show ?case
  proof (cases "index_method loc n line (?d\<lparr>indices := Map.empty\<rparr>)")
    case (Inl e)
    then show ?thesis
      using index_method_indices_update[where s="?d" and I="I ++ indices ?d"]
        index_method_indices_update[where s="?d" and I="indices ?d"]
      by (simp add: d)
  next
    case (Inr t)
    let ?J = "indices ?d ++ indices t"
    have m1: "index_method loc n line (index_directive loc n line (s\<lparr>indices := I\<rparr>)) =
        Inr (t\<lparr>indices := I ++ ?J\<rparr>)"
      using index_method_indices_update[where s="?d" and I="I ++ indices ?d"] Inr
      by (simp add: d)
    have m0: "index_method loc n line ?d = Inr (t\<lparr>indices := ?J\<rparr>)"
      using index_method_indices_update[where s="?d" and I="indices ?d"] Inr by simp
    let ?u = "track_context line t"
    have r1: "parse_indices_loop loc n (line # rest) (s\<lparr>indices := I\<rparr>) =
        parse_indices_loop loc (Suc n) rest (?u\<lparr>indices := I ++ ?J\<rparr>)"
      by (simp add: m1 track_context_indices_update)
    have r0: "parse_indices_loop loc n (line # rest) (s\<lparr>indices := Map.empty\<rparr>) =
        parse_indices_loop loc (Suc n) rest (?u\<lparr>indices := ?J\<rparr>)"
      by (simp add: m0 track_context_indices_update)
    have e1: "parse_indices_loop loc (Suc n) rest (?u\<lparr>indices := I ++ ?J\<rparr>) =
        (case parse_indices_loop loc (Suc n) rest (?u\<lparr>indices := Map.empty\<rparr>) of
           Inl e \<Rightarrow> Inl e | Inr t \<Rightarrow> Inr (t\<lparr>indices := (I ++ ?J) ++ indices t\<rparr>))"
      by (rule Cons.IH)
    have e0: "parse_indices_loop loc (Suc n) rest (?u\<lparr>indices := ?J\<rparr>) =
        (case parse_indices_loop loc (Suc n) rest (?u\<lparr>indices := Map.empty\<rparr>) of
           Inl e \<Rightarrow> Inl e | Inr t \<Rightarrow> Inr (t\<lparr>indices := ?J ++ indices t\<rparr>))"
      by (rule Cons.IH)
    show ?thesis
      unfolding r1 r0 e1 e0 by (simp split: sum.splits)
  qed
qed

lemma map_add_twice: "(a ++ b) ++ b = a ++ b"
  by (rule ext) (simp add: map_add_def split: option.splits)

lemma reset_context_lines [simp]: "lines (reset_context s) = lines s"
  by (simp add: reset_context_def)

lemma reset_context_indices [simp]: "indices (reset_context s) = indices s"
  by (simp add: reset_context_def)

section \<open>The indexing pass\<close>

text \<open>
  C8. Indexing is idempotent: when \<open>parse_indices\<close> has returned, running it again
  on the object it left (same lines, the index just built) returns the same object, so
  the same index.
\<close>

theorem parse_indices_idempotent:
  assumes "parse_indices loc s = Inr s'"
  shows "parse_indices loc s' = Inr s'"
proof -
  let ?r = "reset_context s"
  let ?e = "?r\<lparr>indices := Map.empty\<rparr>"
  have rr: "?r\<lparr>indices := indices s\<rparr> = ?r" by (simp add: reset_context_def)
  have "parse_indices loc s = parse_indices_loop loc 0 (lines s) (?r\<lparr>indices := indices s\<rparr>)"
    by (simp add: parse_indices_def Let_def rr)
  with assms obtain t where t: "parse_indices_loop loc 0 (lines s) ?e = Inr t"
    and s': "s' = t\<lparr>indices := indices s ++ indices t\<rparr>"
    using parse_indices_loop_indices_update[where s="?r" and I="indices s" and loc=loc and n=0
        and ls="lines s"]
    by (auto split: sum.splits)
  from parse_indices_loop_lines[OF t] have lt: "lines t = lines s" by simp
  have r': "reset_context s' = ?e\<lparr>indices := indices s'\<rparr>"
    using lt s' by (simp add: reset_context_def)
  have ls': "lines s' = lines s" using lt s' by simp
  have "parse_indices loc s' = parse_indices_loop loc 0 (lines s') (reset_context s')"
    by (simp add: parse_indices_def Let_def)
  also have "\<dots> = parse_indices_loop loc 0 (lines s) (?e\<lparr>indices := indices s'\<rparr>)"
    by (simp only: r' ls')
  also have "\<dots> = Inr (t\<lparr>indices := indices s' ++ indices t\<rparr>)"
    using parse_indices_loop_indices_update[where s="?e" and I="indices s'" and loc=loc and n=0 and ls="lines s"] t
    by simp
  also have "\<dots> = Inr s'" by (simp add: s' map_add_twice)
  finally show ?thesis .
qed

theorem parse_indices_idempotent_witness:
  "parse_indices (loc_only ''pkg.Widget'')
     \<lparr>lines = [''.. module:: pkg'', ''.. class:: Widget''], indices = Map.empty,
      module = None, cls = None\<rparr> =
   Inr \<lparr>lines = [''.. module:: pkg'', ''.. class:: Widget''],
        indices = [''pkg.Widget'' \<mapsto> 1], module = Some ''pkg'', cls = Some ''Widget''\<rparr> \<and>
   parse_indices (loc_only ''pkg.Widget'')
     \<lparr>lines = [''.. module:: pkg'', ''.. class:: Widget''],
      indices = [''pkg.Widget'' \<mapsto> 1], module = Some ''pkg'', cls = Some ''Widget''\<rparr> =
   Inr \<lparr>lines = [''.. module:: pkg'', ''.. class:: Widget''],
        indices = [''pkg.Widget'' \<mapsto> 1], module = Some ''pkg'', cls = Some ''Widget''\<rparr>"
proof -
  have h: "parse_indices (loc_only ''pkg.Widget'')
     \<lparr>lines = [''.. module:: pkg'', ''.. class:: Widget''], indices = Map.empty,
      module = None, cls = None\<rparr> =
   Inr \<lparr>lines = [''.. module:: pkg'', ''.. class:: Widget''],
        indices = [''pkg.Widget'' \<mapsto> 1], module = Some ''pkg'', cls = Some ''Widget''\<rparr>"
    by (simp add: re_defs pass_defs)
  from parse_indices_idempotent[OF h] h show ?thesis by simp
qed

end
